theory Spec2Isabelle
  imports Complex_Main
begin

section \<open>HTTP middleware of package httputils\<close>

text \<open>
  The development follows the middleware source file of package \<open>httputils\<close>:
  \<open>LoggingMiddleware\<close>, \<open>RecoveryMiddleware\<close>, \<open>getRateLimitConfig\<close> and
  \<open>RateLimitMiddleware\<close>. Mutable state (the client map, the response writer) is passed
  explicitly, panics and Go error returns are values, and every reading of the wall clock
  is an argument of the function that reads it.
\<close>

subsection \<open>Errors\<close>

text \<open>
  Go error values. \<open>ErrPanic\<close> is the package variable \<open>errors.New("panic")\<close>;
  \<open>AddrError why addr\<close> is \<open>net.AddrError\<close>; \<open>EnvError\<close> is an error reported by
  package \<open>parser\<close>; \<open>Wrap pre e post\<close> is the result of \<open>fmt.Errorf\<close> with one \<open>%w\<close>
  verb: the wrapped error \<open>e\<close> between the formatted text before and after it.
\<close>

datatype error =
    ErrPanic
  | AddrError string string
  | EnvError string
  | Wrap string error string

text \<open>\<open>errors.Is\<close>: follows the chain of wrapped errors.\<close>

fun errors_Is :: "error \<Rightarrow> error \<Rightarrow> bool" where
  "errors_Is (Wrap pre e post) target = (Wrap pre e post = target \<or> errors_Is e target)"
| "errors_Is e target = (e = target)"

subsection \<open>Rate limit configuration\<close>

text \<open>
  \<open>type RateLimitConfig struct { enabled bool; rate float64; burst int }\<close>.
  The rate is only stored and handed on, never computed with, by the code modelled in this
  subsection; a rational stands for the \<open>float64\<close>.
\<close>

record RateLimitConfig =
  enabled :: bool
  rate :: rat
  burst :: int

definition defaultRateLimitRate :: rat where
  "defaultRateLimitRate = 10"

definition defaultRateLimitBurst :: int where
  "defaultRateLimitBurst = 20"

text \<open>
  Package \<open>parser\<close> is not among the sources, so its three functions are parameters of
  the model: \<open>ParseEnvBool key dflt\<close> returns a boolean, \<open>ParseEnvFloat64 key dflt\<close> and
  \<open>ParseEnvInt key dflt\<close> return a value or an error, as their uses in
  \<open>getRateLimitConfig\<close> show. A \<open>Parser\<close> is the package together with the process
  environment it reads.
\<close>

record Parser =
  ParseEnvBool :: "string \<Rightarrow> bool \<Rightarrow> bool"
  ParseEnvFloat64 :: "string \<Rightarrow> rat \<Rightarrow> error + rat"
  ParseEnvInt :: "string \<Rightarrow> int \<Rightarrow> error + int"

text \<open>
  \<open>getRateLimitConfig\<close>. The result is \<open>Inl e\<close> when the function panics with \<open>e\<close>.
  The first component lists the environment variables handed to the parser, in call order.
\<close>

definition getRateLimitConfig :: "Parser \<Rightarrow> string list \<times> (error + RateLimitConfig)" where
  "getRateLimitConfig P =
     (let rateLimitConfig =
            \<lparr> enabled = ParseEnvBool P ''RATE_LIMIT_ENABLED'' True,
              rate = defaultRateLimitRate,
              burst = defaultRateLimitBurst \<rparr>
      in if \<not> enabled rateLimitConfig
         then ([''RATE_LIMIT_ENABLED''], Inr rateLimitConfig)
         else (case ParseEnvFloat64 P ''RATE_LIMIT_RATE'' (rate rateLimitConfig) of
                 Inl err \<Rightarrow> ([''RATE_LIMIT_ENABLED'', ''RATE_LIMIT_RATE''], Inl err)
               | Inr rateLimit \<Rightarrow>
                   (let rateLimitConfig = rateLimitConfig\<lparr>rate := rateLimit\<rparr>
                    in case ParseEnvInt P ''RATE_LIMIT_BURST'' (burst rateLimitConfig) of
                         Inl err \<Rightarrow>
                           ([''RATE_LIMIT_ENABLED'', ''RATE_LIMIT_RATE'', ''RATE_LIMIT_BURST''],
                            Inl err)
                       | Inr b \<Rightarrow>
                           ([''RATE_LIMIT_ENABLED'', ''RATE_LIMIT_RATE'', ''RATE_LIMIT_BURST''],
                            Inr (rateLimitConfig\<lparr>burst := b\<rparr>)))))"

subsection \<open>Requests, response writers and handlers\<close>

text \<open>
  The part of \<open>http.Request\<close> read by the middleware: the transport-level remote address,
  the header (first value of each field, as \<open>Header.Get\<close> returns it), the method and the
  URL, and the value stored in the request context under \<open>LogRequestIDKey\<close>.
\<close>

record Request =
  RemoteAddr :: string
  Header :: "string \<rightharpoonup> string"
  Method :: string
  URL :: string
  LogRequestID :: "string option"



text \<open>
  What a handler leaves behind for one request: the response header map, the responses
  written to the \<open>http.ResponseWriter\<close> in order, and the \<open>slog\<close> records emitted (message and
  the request identifier of the logging context).
\<close>

datatype response = Envelope nat "error option"

record ResponseWriter =
  RespHeader :: "string \<rightharpoonup> string"
  written :: "response list"
  slog :: "(string \<times> string option) list"

text \<open>
  A call of \<open>ServeHTTP\<close> either returns or panics; in both cases the writer holds whatever
  was written up to that point. The panic value is kept as the text \<open>%s\<close> prints for it;
  \<open>recover()\<close> never yields \<open>nil\<close> for a panic in the Go versions that have \<open>log/slog\<close>.
\<close>

datatype outcome = Returned ResponseWriter | Panicked string ResponseWriter

type_synonym handler = "Request \<Rightarrow> ResponseWriter \<Rightarrow> outcome"

text \<open>
  Modelled from the spec: the response writers \<open>ServerErrorResponse\<close> and
  \<open>RateLimitExceededResponse\<close> of package \<open>httputils\<close> are not among the sources. The spec
  has them render an error envelope with status 500 (server error) and 429 (rate limit
  exceeded); the server error carries the error it was given.
\<close>

definition ServerErrorResponse :: "ResponseWriter \<Rightarrow> Request \<Rightarrow> error \<Rightarrow> ResponseWriter" where
  "ServerErrorResponse w r err = w\<lparr>written := written w @ [Envelope 500 (Some err)]\<rparr>"

definition RateLimitExceededResponse :: "ResponseWriter \<Rightarrow> Request \<Rightarrow> ResponseWriter" where
  "RateLimitExceededResponse w r = w\<lparr>written := written w @ [Envelope 429 None]\<rparr>"

subsection \<open>Logging middleware\<close>




subsection \<open>Recovery middleware\<close>

text \<open>
  \<open>RecoveryMiddleware\<close>: the deferred function runs when the inner handler has returned or
  panicked; \<open>recover()\<close> yields the panic value in the second case.
\<close>

definition RecoveryMiddleware :: "handler \<Rightarrow> handler" where
  "RecoveryMiddleware next r w =
     (case next r w of
        Returned w' \<Rightarrow> Returned w'
      | Panicked err w' \<Rightarrow>
          (let w' = w'\<lparr>RespHeader := (RespHeader w')(''Connection'' \<mapsto> ''close'')\<rparr>
           in Returned (ServerErrorResponse w' r (Wrap [] ErrPanic ('': '' @ err)))))"

subsection \<open>Time\<close>

text \<open>
  Instants and durations count nanoseconds, as \<open>time.Duration\<close> does. A reading of the
  clock is an integer; \<open>time.Since(t)\<close> at reading \<open>now\<close> is \<open>now - t\<close>.
\<close>

type_synonym instant = int

definition Second :: int where
  "Second = 1000000000"

definition Minute :: int where
  "Minute = 60 * Second"

subsection \<open>Token bucket limiter\<close>

text \<open>
  Modelled from the spec: \<open>rate.Limiter\<close> (\<open>NewLimiter\<close>, \<open>Allow\<close>) is not among the sources.
  The spec gives the limiter a capacity (burst), a refill rate in tokens per second, the
  current tokens and the last-refill instant; a fresh limiter has full burst capacity.
  \<open>Allow\<close> accumulates tokens continuously at the rate, capped at the burst, and consumes
  one token when at least one is available; a denied call only records the elapsed time.
  \<open>Allow\<close> reads the clock itself: \<open>now\<close> is that reading. A reading that lies before
  the last refill counts as no time elapsed. Tokens and the rate are rationals.
\<close>

record Limiter =
  lim_limit :: rat
  lim_burst :: int
  tokens :: rat
  last :: "instant option"

definition NewLimiter :: "rat \<Rightarrow> int \<Rightarrow> Limiter" where
  "NewLimiter r b = \<lparr> lim_limit = r, lim_burst = b, tokens = of_int b, last = None \<rparr>"

definition advance :: "Limiter \<Rightarrow> instant \<Rightarrow> rat" where
  "advance lm now =
     (let elapsed = (case last lm of None \<Rightarrow> 0 | Some t \<Rightarrow> max 0 (now - t))
      in min (of_int (lim_burst lm))
             (tokens lm + lim_limit lm * of_int elapsed / of_int Second))"

definition Allow :: "Limiter \<Rightarrow> instant \<Rightarrow> bool \<times> Limiter" where
  "Allow lm now =
     (let available = advance lm now
      in if 1 \<le> available
         then (True, lm\<lparr>tokens := available - 1, last := Some now\<rparr>)
         else (False, lm\<lparr>tokens := available, last := Some now\<rparr>))"

text \<open>Consecutive calls of \<open>Allow\<close> on one limiter, at the given clock readings.\<close>

fun Allow_seq :: "Limiter \<Rightarrow> instant list \<Rightarrow> bool list \<times> Limiter" where
  "Allow_seq lm [] = ([], lm)"
| "Allow_seq lm (t # ts) =
     (case Allow lm t of (ok, lm') \<Rightarrow>
        (case Allow_seq lm' ts of (oks, lm'') \<Rightarrow> (ok # oks, lm'')))"

subsection \<open>Remote addresses\<close>

text \<open>
  \<open>net.SplitHostPort\<close> of the Go standard library, which \<open>RateLimitMiddleware\<close> calls on
  \<open>r.RemoteAddr\<close>. The result is Go's triple (host, port, err); host and port are empty
  whenever err is set. \<open>i\<close> is the index of the last colon, \<open>e\<close> that of the first closing
  bracket, \<open>j\<close> and \<open>k\<close> are the offsets from which a stray bracket is looked for.
\<close>

fun IndexByte :: "string \<Rightarrow> char \<Rightarrow> nat option" where
  "IndexByte [] c = None"
| "IndexByte (x # xs) c = (if x = c then Some 0 else map_option Suc (IndexByte xs c))"

definition LastIndexByte :: "string \<Rightarrow> char \<Rightarrow> nat option" where
  "LastIndexByte s c = map_option (\<lambda>i. length s - 1 - i) (IndexByte (rev s) c)"

definition addrErr :: "string \<Rightarrow> string \<Rightarrow> string \<times> string \<times> error option" where
  "addrErr addr why = ([], [], Some (AddrError why addr))"

definition SplitHostPort_tail ::
  "string \<Rightarrow> string \<Rightarrow> nat \<Rightarrow> nat \<Rightarrow> nat \<Rightarrow> string \<times> string \<times> error option" where
  "SplitHostPort_tail hostport host i j k =
     (if IndexByte (drop j hostport) CHR ''['' \<noteq> None
      then addrErr hostport (''unexpected '' @ [CHR 0x27, CHR ''['', CHR 0x27] @ '' in address'')
      else if IndexByte (drop k hostport) CHR '']'' \<noteq> None
      then addrErr hostport (''unexpected '' @ [CHR 0x27, CHR '']'', CHR 0x27] @ '' in address'')
      else (host, drop (i + 1) hostport, None))"

definition SplitHostPort :: "string \<Rightarrow> string \<times> string \<times> error option" where
  "SplitHostPort hostport =
     (case LastIndexByte hostport CHR '':'' of
        None \<Rightarrow> addrErr hostport ''missing port in address''
      | Some i \<Rightarrow>
          if take 1 hostport = ''[''
          then (case IndexByte hostport CHR '']'' of
                  None \<Rightarrow>
                    addrErr hostport (''missing '' @ [CHR 0x27, CHR '']'', CHR 0x27] @ '' in address'')
                | Some e \<Rightarrow>
                    if e + 1 = length hostport
                    then addrErr hostport ''missing port in address''
                    else if e + 1 = i
                    then SplitHostPort_tail hostport (take (e - 1) (drop 1 hostport)) i 1 (e + 1)
                    else if take 1 (drop (e + 1) hostport) = '':''
                    then addrErr hostport ''too many colons in address''
                    else addrErr hostport ''missing port in address'')
          else if IndexByte (take i hostport) CHR '':'' \<noteq> None
          then addrErr hostport ''too many colons in address''
          else SplitHostPort_tail hostport (take i hostport) i 0 0)"

subsection \<open>Rate limit middleware\<close>

text \<open>
  \<open>type client struct { limiter *rate.Limiter; lastSeen time.Time }\<close> and the map
  \<open>clients\<close> from the host part of the remote address to the client. The map and the
  limiters are reachable only through the closures of \<open>RateLimitMiddleware\<close>, and every
  access happens between \<open>mu.Lock()\<close> and \<open>mu.Unlock()\<close>, so a value map passed from one
  locked section to the next stands for them.
\<close>

record client =
  limiter :: Limiter
  lastSeen :: instant

type_synonym clients = "string \<rightharpoonup> client"

text \<open>
  The first statement of the locked section of the handler: a client not in the map gets
  a new limiter from the configuration, a known client gets \<open>lastSeen\<close> refreshed.
  \<open>tSeen\<close> is the reading of \<open>time.Now()\<close> there. The result is \<open>clients[ip]\<close> afterwards.
\<close>

definition fetch_or_create :: "RateLimitConfig \<Rightarrow> instant \<Rightarrow> clients \<Rightarrow> string \<Rightarrow> client" where
  "fetch_or_create cfg tSeen cs ip =
     (case cs ip of
        None \<Rightarrow> \<lparr> limiter = NewLimiter (rate cfg) (burst cfg), lastSeen = tSeen \<rparr>
      | Some c \<Rightarrow> c\<lparr>lastSeen := tSeen\<rparr>)"

text \<open>
  The handler that \<open>RateLimitMiddleware\<close> returns when rate limiting is enabled.
  \<open>tAllow\<close> is the clock reading of \<open>Allow\<close>. After a failed \<open>net.SplitHostPort\<close> the source
  writes the server error and goes on with the empty host it got back.
\<close>

definition RateLimitHandler ::
  "RateLimitConfig \<Rightarrow> handler \<Rightarrow> instant \<Rightarrow> instant \<Rightarrow> clients \<Rightarrow> Request \<Rightarrow> ResponseWriter
     \<Rightarrow> outcome \<times> clients" where
  "RateLimitHandler cfg next tSeen tAllow cs r w =
     (case SplitHostPort (RemoteAddr r) of (ip, port, err) \<Rightarrow>
        (let w = (case err of
                    None \<Rightarrow> w
                  | Some e \<Rightarrow>
                      ServerErrorResponse w r (Wrap ''could not parse remote address: '' e []));
             c = fetch_or_create cfg tSeen cs ip
         in case Allow (limiter c) tAllow of (ok, lm) \<Rightarrow>
              (let cs = cs(ip \<mapsto> c\<lparr>limiter := lm\<rparr>)
               in if \<not> ok
                  then (Returned (RateLimitExceededResponse w r), cs)
                  else (next r w, cs))))"


definition staleness :: int where
  "staleness = 3 * Minute"

fun reaper_range :: "(string \<Rightarrow> instant) \<Rightarrow> string list \<Rightarrow> clients \<Rightarrow> clients" where
  "reaper_range now [] cs = cs"
| "reaper_range now (ip # ips) cs =
     (case cs ip of
        None \<Rightarrow> reaper_range now ips cs
      | Some c \<Rightarrow>
          if now ip - lastSeen c > staleness
          then reaper_range now ips (cs(ip := None))
          else reaper_range now ips cs)"

text \<open>
  \<open>RateLimitMiddleware\<close>. What the call returns is either \<open>next\<close> itself or the rate
  limiting closure over the configuration; \<open>startup\<close> records with it what the call set up:
  the client map if one was made, whether the reaper goroutine was started, and the
  \<open>slog.Info\<close> record. A panic of \<open>getRateLimitConfig\<close> ends the call.
\<close>

datatype served = Unwrapped handler | RateLimited RateLimitConfig handler

record startup =
  served :: served
  store :: "clients option"
  reaper :: bool
  info :: "(string \<times> rat \<times> int) list"

definition RateLimitMiddleware :: "Parser \<Rightarrow> handler \<Rightarrow> error + startup" where
  "RateLimitMiddleware P next =
     (case snd (getRateLimitConfig P) of
        Inl err \<Rightarrow> Inl err
      | Inr rateLimitConfig \<Rightarrow>
          if \<not> enabled rateLimitConfig
          then Inr \<lparr> served = Unwrapped next, store = None, reaper = False, info = [] \<rparr>
          else Inr \<lparr> served = RateLimited rateLimitConfig next,
                     store = Some Map.empty,
                     reaper = True,
                     info = [(''rate limit middleware enabled'',
                              rate rateLimitConfig, burst rateLimitConfig)] \<rparr>)"

text \<open>
  Serving a request with the handler that \<open>RateLimitMiddleware\<close> returned. The unwrapped
  handler has no client map: the map argument is handed back untouched.
\<close>

fun ServeHTTP ::
  "served \<Rightarrow> instant \<Rightarrow> instant \<Rightarrow> clients \<Rightarrow> Request \<Rightarrow> ResponseWriter \<Rightarrow> outcome \<times> clients" where
  "ServeHTTP (Unwrapped next) tSeen tAllow cs r w = (next r w, cs)"
| "ServeHTTP (RateLimited cfg next) tSeen tAllow cs r w =
     RateLimitHandler cfg next tSeen tAllow cs r w"

subsection \<open>Executions of the rate limiting middleware\<close>

text \<open>
  The locked section of the handler and the pass of the reaper both run between
  \<open>mu.Lock()\<close> and \<open>mu.Unlock()\<close>, and nothing else reads or writes the client map. An
  execution of the middleware with requests in flight at the same time is therefore a
  sequence of such sections, in the order in which they got the lock: \<open>Serve r w tSeen tAllow\<close>
  is the section of the request \<open>r\<close> with its response writer and its two clock readings,
  \<open>Sweep now ips\<close> one pass of the reaper. What a request does outside the lock (parsing
  the address, writing the response, calling the inner handler) touches its own writer
  only. \<open>run\<close> returns, for every request in the order of the sections, the key under
  which it was counted and what came of it, and the client map at the end.
\<close>

datatype event =
    Serve Request ResponseWriter instant instant
  | Sweep "string \<Rightarrow> instant" "string list"

definition host_of :: "Request \<Rightarrow> string" where
  "host_of r = fst (SplitHostPort (RemoteAddr r))"

definition parses :: "Request \<Rightarrow> bool" where
  "parses r = (snd (snd (SplitHostPort (RemoteAddr r))) = None)"

fun run ::
  "RateLimitConfig \<Rightarrow> handler \<Rightarrow> event list \<Rightarrow> clients \<Rightarrow> (string \<times> outcome) list \<times> clients" where
  "run cfg next [] cs = ([], cs)"
| "run cfg next (Serve r w tSeen tAllow # evs) cs =
     (case RateLimitHandler cfg next tSeen tAllow cs r w of (out, cs') \<Rightarrow>
        (case run cfg next evs cs' of (outs, cs'') \<Rightarrow> ((host_of r, out) # outs, cs'')))"
| "run cfg next (Sweep now ips # evs) cs = run cfg next evs (reaper_range now ips cs)"

text \<open>
  \<open>evicts cfg next ip evs cs\<close>: in the execution \<open>evs\<close> from the map \<open>cs\<close>, some pass of the
  reaper removes the entry of \<open>ip\<close>. \<open>concerns ip\<close> holds of the sections of requests counted
  under \<open>ip\<close> and of every pass of the reaper; \<open>requests_of ip evs\<close> lists the requests counted
  under \<open>ip\<close> with their writers, \<open>outcomes_of ip\<close> selects their outcomes, and \<open>denied\<close> is
  the outcome of a request turned away with the rate-limit-exceeded response.
\<close>

fun evicts :: "RateLimitConfig \<Rightarrow> handler \<Rightarrow> string \<Rightarrow> event list \<Rightarrow> clients \<Rightarrow> bool" where
  "evicts cfg next ip [] cs = False"
| "evicts cfg next ip (Serve r w tSeen tAllow # evs) cs =
     evicts cfg next ip evs (snd (RateLimitHandler cfg next tSeen tAllow cs r w))"
| "evicts cfg next ip (Sweep now ips # evs) cs =
     ((cs ip \<noteq> None \<and> reaper_range now ips cs ip = None)
      \<or> evicts cfg next ip evs (reaper_range now ips cs))"

fun concerns :: "string \<Rightarrow> event \<Rightarrow> bool" where
  "concerns ip (Serve r w tSeen tAllow) = (host_of r = ip)"
| "concerns ip (Sweep now ips) = True"

fun requests_of :: "string \<Rightarrow> event list \<Rightarrow> (Request \<times> ResponseWriter) list" where
  "requests_of ip [] = []"
| "requests_of ip (Serve r w tSeen tAllow # evs) =
     (if host_of r = ip then (r, w) # requests_of ip evs else requests_of ip evs)"
| "requests_of ip (Sweep now ips # evs) = requests_of ip evs"

definition outcomes_of :: "string \<Rightarrow> (string \<times> outcome) list \<Rightarrow> outcome list" where
  "outcomes_of ip outs = map snd (filter (\<lambda>p. fst p = ip) outs)"

definition denied :: "Request \<times> ResponseWriter \<Rightarrow> outcome" where
  "denied p = Returned (RateLimitExceededResponse (snd p) (fst p))"

text \<open>
  \<open>within_window lo ip evs\<close>: in the execution \<open>evs\<close> every request counted under \<open>ip\<close> reads
  the clock at \<open>lo\<close> or later, and every pass of the reaper examines \<open>ip\<close> no later than
  the staleness threshold after \<open>lo\<close>.
\<close>

fun within_window :: "instant \<Rightarrow> string \<Rightarrow> event list \<Rightarrow> bool" where
  "within_window lo ip [] = True"
| "within_window lo ip (Serve r w tSeen tAllow # evs) =
     ((host_of r = ip \<longrightarrow> lo \<le> tSeen) \<and> within_window lo ip evs)"
| "within_window lo ip (Sweep now ips # evs) =
     (now ip \<le> lo + staleness \<and> within_window lo ip evs)"

text \<open>
  A client whose bucket is empty and can never refill: no tokens, rate 0, burst 1.
\<close>

definition spent :: "clients \<Rightarrow> string \<Rightarrow> bool" where
  "spent cs ip =
     (case cs ip of
        None \<Rightarrow> False
      | Some c \<Rightarrow> tokens (limiter c) = 0 \<and> lim_limit (limiter c) = 0 \<and> lim_burst (limiter c) = 1)"

subsection \<open>Example inputs\<close>

text \<open>
  Three environments as package \<open>parser\<close> presents them: nothing set (every call returns
  its default); rate limiting switched off while both numeric variables hold text that is
  no number; and rate limiting on with an invalid burst. \<open>ok_handler\<close> is an application
  handler that writes a 200 response and returns.
\<close>

definition env_unset :: Parser where
  "env_unset = \<lparr> ParseEnvBool = (\<lambda>key dflt. dflt),
                 ParseEnvFloat64 = (\<lambda>key dflt. Inr dflt),
                 ParseEnvInt = (\<lambda>key dflt. Inr dflt) \<rparr>"

definition env_disabled_invalid :: Parser where
  "env_disabled_invalid =
     \<lparr> ParseEnvBool = (\<lambda>key dflt. if key = ''RATE_LIMIT_ENABLED'' then False else dflt),
       ParseEnvFloat64 = (\<lambda>key dflt. if key = ''RATE_LIMIT_RATE'' then Inl (EnvError key) else Inr dflt),
       ParseEnvInt = (\<lambda>key dflt. if key = ''RATE_LIMIT_BURST'' then Inl (EnvError key) else Inr dflt) \<rparr>"

definition env_invalid_burst :: Parser where
  "env_invalid_burst =
     \<lparr> ParseEnvBool = (\<lambda>key dflt. dflt),
       ParseEnvFloat64 = (\<lambda>key dflt. Inr dflt),
       ParseEnvInt = (\<lambda>key dflt. if key = ''RATE_LIMIT_BURST'' then Inl (EnvError key) else Inr dflt) \<rparr>"

definition ok_handler :: handler where
  "ok_handler r w = Returned (w\<lparr>written := written w @ [Envelope 200 None]\<rparr>)"

text \<open>
  The default configuration; a response writer nothing has been written to; a request from
  \<open>10.0.0.1:8080\<close> without headers, one whose remote address has no port, and one
  carrying \<open>X-Request-ID: abc123\<close>; an application handler that panics with \<open>boom\<close> after
  writing a 200 response.
\<close>

definition cfg_default :: RateLimitConfig where
  "cfg_default = \<lparr> enabled = True, rate = 10, burst = 20 \<rparr>"

definition writer0 :: ResponseWriter where
  "writer0 = \<lparr> RespHeader = Map.empty, written = [], slog = [] \<rparr>"

definition req_plain :: Request where
  "req_plain = \<lparr> RemoteAddr = ''10.0.0.1:8080'', Header = Map.empty, Method = ''GET'',
                 URL = ''/tenants'', LogRequestID = None \<rparr>"

definition req_noport :: Request where
  "req_noport = req_plain\<lparr>RemoteAddr := ''localhost''\<rparr>"


definition boom_handler :: handler where
  "boom_handler r w = Panicked ''boom'' (w\<lparr>written := written w @ [Envelope 200 None]\<rparr>)"

text \<open>A client map in which \<open>10.0.0.1\<close> has used up its bucket at instant 0.\<close>

definition clients_exhausted :: clients where
  "clients_exhausted =
     [''10.0.0.1'' \<mapsto> \<lparr> limiter = \<lparr> lim_limit = 10, lim_burst = 20, tokens = 0, last = Some 0 \<rparr>,
                       lastSeen = 0 \<rparr>]"




text \<open>
  A configuration with rate 0 and burst 1, a request from a second host, and two
  executions from an empty client map: in the first a pass of the reaper, 200 seconds
  after the first request of \<open>10.0.0.1\<close>, falls between two requests of that host; in the
  second three requests of \<open>10.0.0.1\<close>, one of \<open>10.0.0.2\<close> and a pass of the reaper all happen
  within nanoseconds.
\<close>

definition cfg_one :: RateLimitConfig where
  "cfg_one = \<lparr> enabled = True, rate = 0, burst = 1 \<rparr>"

definition req_other :: Request where
  "req_other = req_plain\<lparr>RemoteAddr := ''10.0.0.2:9090''\<rparr>"

definition schedule_evicting :: "event list" where
  "schedule_evicting =
     [Serve req_plain writer0 0 0,
      Sweep (\<lambda>ip. 200000000000) [''10.0.0.1''],
      Serve req_plain writer0 200000000001 200000000002]"

definition schedule_mixed :: "event list" where
  "schedule_mixed =
     [Serve req_plain writer0 0 0,
      Serve req_other writer0 1 1,
      Sweep (\<lambda>ip. 5) [''10.0.0.2'', ''10.0.0.1''],
      Serve req_plain writer0 6 7,
      Serve req_plain writer0 8 9]"

section \<open>Properties\<close>

subsection \<open>Configuration\<close>

text \<open>
  C10: when the enable flag parses as false, \<open>getRateLimitConfig\<close> hands only
  \<open>RATE_LIMIT_ENABLED\<close> to the parser: the rate and burst variables are never parsed. For
  every environment with the flag false, whatever the two numeric parsers would return,
  the configuration is disabled with the defaults rate 10 and burst 20, and the
  construction of the middleware does not panic.
\<close>

theorem getRateLimitConfig_disabled_skips_numeric:
  assumes "\<not> ParseEnvBool P ''RATE_LIMIT_ENABLED'' True"
  shows "getRateLimitConfig P =
           ([''RATE_LIMIT_ENABLED''], Inr \<lparr> enabled = False, rate = 10, burst = 20 \<rparr>)
         \<and> \<not> isl (RateLimitMiddleware P next)"
  using assms
  by (simp add: getRateLimitConfig_def RateLimitMiddleware_def defaultRateLimitRate_def
        defaultRateLimitBurst_def)

theorem getRateLimitConfig_disabled_skips_numeric_witness:
  "\<not> ParseEnvBool env_disabled_invalid ''RATE_LIMIT_ENABLED'' True
   \<and> isl (ParseEnvFloat64 env_disabled_invalid ''RATE_LIMIT_RATE'' 10)
   \<and> isl (ParseEnvInt env_disabled_invalid ''RATE_LIMIT_BURST'' 20)
   \<and> getRateLimitConfig env_disabled_invalid =
        ([''RATE_LIMIT_ENABLED''], Inr \<lparr> enabled = False, rate = 10, burst = 20 \<rparr>)
   \<and> \<not> isl (RateLimitMiddleware env_disabled_invalid ok_handler)"
  using getRateLimitConfig_disabled_skips_numeric [of env_disabled_invalid ok_handler]
  by (simp add: env_disabled_invalid_def)

text \<open>
  C8 as stated fails: in the environment \<open>env_disabled_invalid\<close> both numeric variables are
  invalid, yet the construction succeeds and returns the inner handler, because the enable
  flag is false and the function returns before parsing them.
\<close>

theorem invalid_numeric_disabled_counterexample:
  "isl (ParseEnvFloat64 env_disabled_invalid ''RATE_LIMIT_RATE'' 10)
   \<and> isl (ParseEnvInt env_disabled_invalid ''RATE_LIMIT_BURST'' 20)
   \<and> RateLimitMiddleware env_disabled_invalid ok_handler =
        Inr \<lparr> served = Unwrapped ok_handler, store = None, reaper = False, info = [] \<rparr>"
  by (simp add: env_disabled_invalid_def RateLimitMiddleware_def getRateLimitConfig_def)

text \<open>
  C8, amended: for every environment in which the enable flag parses as true and the parser
  reports an error for the rate or for the burst variable, \<open>getRateLimitConfig\<close> panics and
  so does the construction of the middleware; when the flag, the rate and the burst parse to
  their defaults (no overrides), the configuration is enabled with rate 10 and burst 20.
\<close>

theorem getRateLimitConfig_enabled_invalid_or_default:
  "(ParseEnvBool P ''RATE_LIMIT_ENABLED'' True
      \<and> (isl (ParseEnvFloat64 P ''RATE_LIMIT_RATE'' 10) \<or> isl (ParseEnvInt P ''RATE_LIMIT_BURST'' 20))
      \<longrightarrow> isl (snd (getRateLimitConfig P)) \<and> isl (RateLimitMiddleware P next))
   \<and> (ParseEnvBool P ''RATE_LIMIT_ENABLED'' True
        \<and> ParseEnvFloat64 P ''RATE_LIMIT_RATE'' 10 = Inr 10
        \<and> ParseEnvInt P ''RATE_LIMIT_BURST'' 20 = Inr 20
      \<longrightarrow> snd (getRateLimitConfig P) = Inr \<lparr> enabled = True, rate = 10, burst = 20 \<rparr>)"
  by (auto simp add: getRateLimitConfig_def RateLimitMiddleware_def defaultRateLimitRate_def
        defaultRateLimitBurst_def Let_def split: sum.splits)

theorem getRateLimitConfig_enabled_invalid_or_default_witness:
  "ParseEnvBool env_invalid_burst ''RATE_LIMIT_ENABLED'' True
   \<and> isl (ParseEnvInt env_invalid_burst ''RATE_LIMIT_BURST'' 20)
   \<and> isl (RateLimitMiddleware env_invalid_burst ok_handler)
   \<and> ParseEnvBool env_unset ''RATE_LIMIT_ENABLED'' True
   \<and> ParseEnvFloat64 env_unset ''RATE_LIMIT_RATE'' 10 = Inr 10
   \<and> ParseEnvInt env_unset ''RATE_LIMIT_BURST'' 20 = Inr 20
   \<and> snd (getRateLimitConfig env_unset) = Inr \<lparr> enabled = True, rate = 10, burst = 20 \<rparr>"
  using getRateLimitConfig_enabled_invalid_or_default [of env_invalid_burst ok_handler]
    getRateLimitConfig_enabled_invalid_or_default [of env_unset ok_handler]
  by (simp add: env_invalid_burst_def env_unset_def)

subsection \<open>Disabled rate limiting\<close>

text \<open>
  C2: when the configuration read by \<open>RateLimitMiddleware\<close> is disabled, the call returns
  the inner handler itself, makes no client map and starts no reaper goroutine; serving any
  request with what it returned is serving it with the inner handler, on the same request
  and response writer.
\<close>

theorem RateLimitMiddleware_disabled_is_next:
  assumes "snd (getRateLimitConfig P) = Inr cfg" and "\<not> enabled cfg"
  shows "RateLimitMiddleware P next =
           Inr \<lparr> served = Unwrapped next, store = None, reaper = False, info = [] \<rparr>
         \<and> ServeHTTP (Unwrapped next) tSeen tAllow cs r w = (next r w, cs)"
  using assms by (simp add: RateLimitMiddleware_def)

theorem RateLimitMiddleware_disabled_is_next_witness:
  "snd (getRateLimitConfig env_disabled_invalid) = Inr \<lparr> enabled = False, rate = 10, burst = 20 \<rparr>
   \<and> RateLimitMiddleware env_disabled_invalid ok_handler =
        Inr \<lparr> served = Unwrapped ok_handler, store = None, reaper = False, info = [] \<rparr>
   \<and> ServeHTTP (Unwrapped ok_handler) 0 0 Map.empty req_plain writer0 =
        (Returned \<lparr> RespHeader = Map.empty, written = [Envelope 200 None], slog = [] \<rparr>, Map.empty)"
proof -
  have cfg: "snd (getRateLimitConfig env_disabled_invalid) =
               Inr \<lparr> enabled = False, rate = 10, burst = 20 \<rparr>"
    by (simp add: getRateLimitConfig_def env_disabled_invalid_def defaultRateLimitRate_def
          defaultRateLimitBurst_def)
  show ?thesis
    using RateLimitMiddleware_disabled_is_next [OF cfg, of ok_handler 0 0 Map.empty req_plain writer0]
    by (simp add: cfg ok_handler_def writer0_def)
qed

subsection \<open>The rate limiting handler\<close>

lemma SplitHostPort_req_plain:
  "SplitHostPort ''10.0.0.1:8080'' = (''10.0.0.1'', ''8080'', None)"
  by (simp add: SplitHostPort_def LastIndexByte_def SplitHostPort_tail_def)

lemma SplitHostPort_localhost:
  "SplitHostPort ''localhost'' = ([], [], Some (AddrError ''missing port in address'' ''localhost''))"
  by (simp add: SplitHostPort_def LastIndexByte_def addrErr_def)

lemma RateLimitHandler_split:
  assumes "SplitHostPort (RemoteAddr r) = (ip, port, err)"
  shows "RateLimitHandler cfg next tSeen tAllow cs r w =
           (let w1 = (case err of
                        None \<Rightarrow> w
                      | Some e \<Rightarrow>
                          ServerErrorResponse w r (Wrap ''could not parse remote address: '' e []));
                c = fetch_or_create cfg tSeen cs ip;
                a = Allow (limiter c) tAllow
            in (if fst a then next r w1 else Returned (RateLimitExceededResponse w1 r),
                cs(ip \<mapsto> c\<lparr>limiter := snd a\<rparr>)))"
  using assms by (simp add: RateLimitHandler_def Let_def case_prod_beta)

lemma fetch_or_create_lastSeen: "lastSeen (fetch_or_create cfg tSeen cs ip) = tSeen"
  by (simp add: fetch_or_create_def split: option.splits)

text \<open>
  One locked section touches the entry of its own host only, and what it answers depends
  on that entry only.
\<close>

lemma RateLimitHandler_other_hosts:
  assumes "SplitHostPort (RemoteAddr r) = (ip, port, err)" and "ip' \<noteq> ip"
  shows "snd (RateLimitHandler cfg next tSeen tAllow cs r w) ip' = cs ip'"
  using assms(2) by (simp add: RateLimitHandler_split [OF assms(1)] Let_def)

lemma RateLimitHandler_own_entry:
  assumes "SplitHostPort (RemoteAddr r) = (ip, port, err)" and "cs ip = cs' ip"
  shows "fst (RateLimitHandler cfg next tSeen tAllow cs r w) =
           fst (RateLimitHandler cfg next tSeen tAllow cs' r w)
         \<and> snd (RateLimitHandler cfg next tSeen tAllow cs r w) ip =
             snd (RateLimitHandler cfg next tSeen tAllow cs' r w) ip"
proof -
  have "fetch_or_create cfg tSeen cs ip = fetch_or_create cfg tSeen cs' ip"
    using assms(2) by (simp add: fetch_or_create_def)
  then show ?thesis
    by (simp add: RateLimitHandler_split [OF assms(1)] Let_def)
qed

text \<open>
  After a failed \<open>net.SplitHostPort\<close> the handler has written the server error and, when the
  limiter kept under the empty host admits the request, calls the inner handler all the same.
\<close>

lemma RateLimitHandler_unparsable_general:
  assumes "SplitHostPort (RemoteAddr r) = (ip, port, Some e)"
    and "fst (Allow (limiter (fetch_or_create cfg tSeen cs ip)) tAllow)"
  shows "fst (RateLimitHandler cfg next tSeen tAllow cs r w) =
           next r (ServerErrorResponse w r (Wrap ''could not parse remote address: '' e []))"
  using assms by (simp add: RateLimitHandler_split Let_def)

text \<open>
  C1 fails on the code: the request \<open>req_noport\<close>, whose remote address \<open>localhost\<close> has no
  port, gets the server error (status 500) and is then served by the inner handler, which
  writes its own 200 response.
\<close>

theorem RateLimitHandler_unparsable_address_reaches_next:
  "fst (RateLimitHandler cfg_default ok_handler 0 0 Map.empty req_noport writer0) =
     Returned \<lparr> RespHeader = Map.empty,
                written = [Envelope 500 (Some (Wrap ''could not parse remote address: ''
                                                 (AddrError ''missing port in address'' ''localhost'') [])),
                           Envelope 200 None],
                slog = [] \<rparr>"
  by (simp add: RateLimitHandler_def req_noport_def req_plain_def SplitHostPort_localhost
        ServerErrorResponse_def fetch_or_create_def cfg_default_def NewLimiter_def Allow_def
        advance_def ok_handler_def writer0_def)

text \<open>
  C4: for every request whose remote address parses, served by the enabled middleware:
  the client's entry after the lookup has \<open>lastSeen\<close> set to the reading of the clock, it is
  a new entry with a full bucket when the host was not in the map and the old entry
  otherwise, and the entry is stored with \<open>lastSeen\<close> refreshed whatever the limiter
  answers. When the limiter denies, the handler returns the rate-limit-exceeded response
  (status 429) and the result does not depend on the inner handler; when it allows, the
  result is the inner handler's on the same request and writer.
\<close>

theorem RateLimitHandler_parseable:
  assumes "SplitHostPort (RemoteAddr r) = (ip, port, None)"
    and "c = fetch_or_create cfg tSeen cs ip"
  shows "lastSeen c = tSeen
         \<and> (cs ip = None \<longrightarrow> limiter c = NewLimiter (rate cfg) (burst cfg)
                               \<and> tokens (limiter c) = of_int (burst cfg))
         \<and> (\<forall>c0. cs ip = Some c0 \<longrightarrow> c = c0\<lparr>lastSeen := tSeen\<rparr>)
         \<and> snd (ServeHTTP (RateLimited cfg next) tSeen tAllow cs r w) =
               cs(ip \<mapsto> \<lparr> limiter = snd (Allow (limiter c) tAllow), lastSeen = tSeen \<rparr>)
         \<and> (\<not> fst (Allow (limiter c) tAllow) \<longrightarrow>
               fst (ServeHTTP (RateLimited cfg next) tSeen tAllow cs r w) =
                 Returned (RateLimitExceededResponse w r)
               \<and> written (RateLimitExceededResponse w r) = written w @ [Envelope 429 None]
               \<and> ServeHTTP (RateLimited cfg next') tSeen tAllow cs r w =
                   ServeHTTP (RateLimited cfg next) tSeen tAllow cs r w)
         \<and> (fst (Allow (limiter c) tAllow) \<longrightarrow>
               fst (ServeHTTP (RateLimited cfg next) tSeen tAllow cs r w) = next r w)"
proof -
  have seen: "lastSeen c = tSeen"
    using assms(2) by (simp add: fetch_or_create_lastSeen)
  have fresh: "cs ip = None \<longrightarrow> limiter c = NewLimiter (rate cfg) (burst cfg)
                 \<and> tokens (limiter c) = of_int (burst cfg)"
    using assms(2) by (simp add: fetch_or_create_def NewLimiter_def)
  have known: "\<forall>c0. cs ip = Some c0 \<longrightarrow> c = c0\<lparr>lastSeen := tSeen\<rparr>"
    using assms(2) by (simp add: fetch_or_create_def)
  have entry: "c\<lparr>limiter := lm\<rparr> = \<lparr> limiter = lm, lastSeen = tSeen \<rparr>" for lm
    using seen by (cases c) simp
  have run: "RateLimitHandler cfg h tSeen tAllow cs r w =
               (if fst (Allow (limiter c) tAllow) then h r w
                else Returned (RateLimitExceededResponse w r),
                cs(ip \<mapsto> \<lparr> limiter = snd (Allow (limiter c) tAllow), lastSeen = tSeen \<rparr>))" for h
    by (simp add: RateLimitHandler_split [OF assms(1)] Let_def assms(2) [symmetric] entry)
  show ?thesis
    using seen fresh known by (auto simp add: run RateLimitExceededResponse_def)
qed


theorem RateLimitHandler_parseable_witness:
  "SplitHostPort (RemoteAddr req_plain) = (''10.0.0.1'', ''8080'', None)
   \<and> Map.empty ''10.0.0.1'' = (None :: client option)
   \<and> fst (Allow (limiter (fetch_or_create cfg_default 5 Map.empty ''10.0.0.1'')) 6)
   \<and> fst (ServeHTTP (RateLimited cfg_default ok_handler) 5 6 Map.empty req_plain writer0) =
        ok_handler req_plain writer0
   \<and> lastSeen (fetch_or_create cfg_default 5 Map.empty ''10.0.0.1'') = 5
   \<and> \<not> fst (Allow (limiter (fetch_or_create cfg_default 7 clients_exhausted ''10.0.0.1'')) 8)
   \<and> fst (ServeHTTP (RateLimited cfg_default ok_handler) 7 8 clients_exhausted req_plain writer0) =
        Returned \<lparr> RespHeader = Map.empty, written = [Envelope 429 None], slog = [] \<rparr>
   \<and> snd (ServeHTTP (RateLimited cfg_default ok_handler) 7 8 clients_exhausted req_plain writer0)
         ''10.0.0.1'' =
        Some \<lparr> limiter = \<lparr> lim_limit = 10, lim_burst = 20, tokens = 1 / 12500000, last = Some 8 \<rparr>,
               lastSeen = 7 \<rparr>"
proof -
  have addr: "SplitHostPort (RemoteAddr req_plain) = (''10.0.0.1'', ''8080'', None)"
    by (simp add: req_plain_def SplitHostPort_req_plain)
  have allow: "fst (Allow (limiter (fetch_or_create cfg_default 5 Map.empty ''10.0.0.1'')) 6)"
    by (simp add: fetch_or_create_def cfg_default_def NewLimiter_def Allow_def advance_def)
  have deny: "Allow (limiter (fetch_or_create cfg_default 7 clients_exhausted ''10.0.0.1'')) 8 =
                (False, \<lparr> lim_limit = 10, lim_burst = 20, tokens = 1 / 12500000, last = Some 8 \<rparr>)"
    by (simp add: fetch_or_create_def clients_exhausted_def Allow_def advance_def Second_def)
  note fresh = RateLimitHandler_parseable
    [OF addr refl, of cfg_default 5 Map.empty ok_handler 6 writer0 ok_handler]
  note known = RateLimitHandler_parseable
    [OF addr refl, of cfg_default 7 clients_exhausted ok_handler 8 writer0 ok_handler]
  have a: "fst (ServeHTTP (RateLimited cfg_default ok_handler) 5 6 Map.empty req_plain writer0) =
             ok_handler req_plain writer0"
    using fresh allow by blast
  have b: "lastSeen (fetch_or_create cfg_default 5 Map.empty ''10.0.0.1'') = 5"
    using fresh by blast
  have c: "fst (ServeHTTP (RateLimited cfg_default ok_handler) 7 8 clients_exhausted req_plain writer0) =
             Returned (RateLimitExceededResponse writer0 req_plain)"
    using known deny by simp
  have d: "snd (ServeHTTP (RateLimited cfg_default ok_handler) 7 8 clients_exhausted req_plain writer0) =
             clients_exhausted(''10.0.0.1'' \<mapsto>
               \<lparr> limiter = snd (Allow (limiter (fetch_or_create cfg_default 7 clients_exhausted
                                                  ''10.0.0.1'')) 8),
                 lastSeen = 7 \<rparr>)"
    using known by blast
  have e: "RateLimitExceededResponse writer0 req_plain =
             \<lparr> RespHeader = Map.empty, written = [Envelope 429 None], slog = [] \<rparr>"
    by (simp add: RateLimitExceededResponse_def writer0_def)
  show ?thesis
    by (simp add: addr allow a b c d e deny del: ServeHTTP.simps)
qed

subsection \<open>Recovery\<close>

text \<open>
  C6: when the inner handler panics with value \<open>v\<close>, \<open>RecoveryMiddleware\<close> returns normally;
  to what the handler had written it adds the header \<open>Connection: close\<close> and exactly one
  response, the server error with status 500 whose error wraps \<open>ErrPanic\<close> (\<open>errors.Is\<close>
  finds \<open>ErrPanic\<close> in it) and carries \<open>v\<close>. When the inner handler returns, the result is
  the handler's own.
\<close>

theorem RecoveryMiddleware_panic_or_return:
  "(next r w = Panicked v w' \<longrightarrow>
      RecoveryMiddleware next r w =
        Returned (w'\<lparr> RespHeader := (RespHeader w')(''Connection'' \<mapsto> ''close''),
                      written := written w' @ [Envelope 500 (Some (Wrap [] ErrPanic ('': '' @ v)))] \<rparr>)
      \<and> errors_Is (Wrap [] ErrPanic ('': '' @ v)) ErrPanic)
   \<and> (next r w = Returned w' \<longrightarrow> RecoveryMiddleware next r w = Returned w')"
  by (simp add: RecoveryMiddleware_def ServerErrorResponse_def)

theorem RecoveryMiddleware_panic_or_return_witness:
  "boom_handler req_plain writer0 =
     Panicked ''boom'' \<lparr> RespHeader = Map.empty, written = [Envelope 200 None], slog = [] \<rparr>
   \<and> RecoveryMiddleware boom_handler req_plain writer0 =
        Returned \<lparr> RespHeader = [''Connection'' \<mapsto> ''close''],
                   written = [Envelope 200 None, Envelope 500 (Some (Wrap [] ErrPanic '': boom''))],
                   slog = [] \<rparr>
   \<and> ok_handler req_plain writer0 =
        Returned \<lparr> RespHeader = Map.empty, written = [Envelope 200 None], slog = [] \<rparr>
   \<and> RecoveryMiddleware ok_handler req_plain writer0 = ok_handler req_plain writer0"
proof -
  have boom: "boom_handler req_plain writer0 =
     Panicked ''boom'' \<lparr> RespHeader = Map.empty, written = [Envelope 200 None], slog = [] \<rparr>"
    by (simp add: boom_handler_def writer0_def)
  have ok: "ok_handler req_plain writer0 =
        Returned \<lparr> RespHeader = Map.empty, written = [Envelope 200 None], slog = [] \<rparr>"
    by (simp add: ok_handler_def writer0_def)
  show ?thesis
    using RecoveryMiddleware_panic_or_return [of boom_handler req_plain writer0 "''boom''"
        "\<lparr> RespHeader = Map.empty, written = [Envelope 200 None], slog = [] \<rparr>"]
      RecoveryMiddleware_panic_or_return [of ok_handler req_plain writer0 "''boom''"
        "\<lparr> RespHeader = Map.empty, written = [Envelope 200 None], slog = [] \<rparr>"]
    by (simp add: boom ok)
qed


subsection \<open>Request identifiers\<close>







subsection \<open>The reaper\<close>

text \<open>
  One pass of the reaper over a list of keys: a key in the list loses its entry exactly when
  the entry is stale at the reading of the clock taken for it; other keys are untouched.
\<close>

lemma reaper_range_lookup:
  "reaper_range now ips cs ip =
     (if ip \<in> set ips
      then (case cs ip of
              None \<Rightarrow> None
            | Some c \<Rightarrow> if now ip - lastSeen c > staleness then None else Some c)
      else cs ip)"
proof (induction ips arbitrary: cs)
  case Nil
  show ?case by simp
next
  case (Cons k ks)
  show ?case
  proof (cases "k = ip")
    case True
    show ?thesis
      unfolding True by (simp add: Cons.IH split: option.splits)
  next
    case False
    then show ?thesis
      by (simp add: Cons.IH split: option.splits)
  qed
qed





subsection \<open>The token bucket\<close>

lemma Allow_seq_append:
  "Allow_seq lm (xs @ ys) =
     (case Allow_seq lm xs of (a, lm') \<Rightarrow>
        (case Allow_seq lm' ys of (b, lm'') \<Rightarrow> (a @ b, lm'')))"
  by (induction xs arbitrary: lm) (simp_all split: prod.splits)

lemma advance_same_instant:
  assumes "last lm = None \<or> last lm = Some t"
  shows "advance lm t = min (of_int (lim_burst lm)) (tokens lm)"
  using assms by (auto simp add: advance_def)

lemma Allow_seq_burst:
  assumes "tokens lm = of_nat k" and "of_nat k \<le> (of_int (lim_burst lm) :: rat)"
    and "last lm = None \<or> last lm = Some t"
  shows "Allow_seq lm (replicate k t) =
           (replicate k True, lm\<lparr>tokens := 0, last := (if k = 0 then last lm else Some t)\<rparr>)"
  using assms
proof (induction k arbitrary: lm)
  case 0
  then show ?case by simp
next
  case (Suc k)
  have av: "advance lm t = of_nat (Suc k)"
    using Suc.prems by (simp add: advance_same_instant min_def)
  have step: "Allow lm t = (True, lm\<lparr>tokens := of_nat k, last := Some t\<rparr>)"
    by (simp add: Allow_def av)
  have rest: "Allow_seq (lm\<lparr>tokens := of_nat k, last := Some t\<rparr>) (replicate k t) =
                (replicate k True, lm\<lparr>tokens := 0, last := Some t\<rparr>)"
    using Suc.prems(2) by (subst Suc.IH) simp_all
  show ?case
    by (simp add: step rest)
qed


text \<open>
  C3 as stated fails: with burst 2 and rate 1 per second, two immediate requests are
  admitted and the third is denied, but after a wait of 2 seconds (at least \<open>1/R\<close>) two
  further requests are admitted, not exactly one.
\<close>

theorem Allow_exactly_one_after_wait_counterexample:
  "(0::int) < 2 \<and> (0::rat) < 1 \<and> 1 / (1::rat) \<le> of_int 2000000000 / of_int Second
   \<and> fst (Allow_seq (NewLimiter 1 2) [0, 0, 0, 0 + 2000000000, 0 + 2000000000]) =
        [True, True, False, True, True]"
  by (simp add: NewLimiter_def Allow_def advance_def Second_def)

text \<open>
  C3, amended: for a fresh limiter with burst \<open>B > 0\<close> and rate \<open>R > 0\<close>, \<open>B\<close> consecutive
  immediate requests are all admitted and the next immediate request is denied; after a
  wait of \<open>d\<close> nanoseconds that is at least \<open>1/R\<close> seconds the next request is admitted, and
  a second request at that instant is admitted exactly when \<open>B \<ge> 2\<close> and the wait was at
  least \<open>2/R\<close> seconds. So exactly one further request is admitted when the wait is shorter
  than \<open>2/R\<close> seconds or the burst is 1.
\<close>

theorem Allow_burst_then_refill:
  assumes "0 < B" and "0 < R" and "1 / R \<le> of_int d / of_int Second"
  shows "fst (Allow_seq (NewLimiter R B) (replicate (nat B) t @ [t, t + d, t + d])) =
           replicate (nat B) True @ [False, True, 2 \<le> B \<and> 2 / R \<le> of_int d / of_int Second]"
proof -
  define x where "x = R * of_int d / of_int Second"
  have S: "(0::rat) < of_int Second"
    by (simp add: Second_def)
  have x1: "1 \<le> x"
    using assms(2,3) S by (simp add: x_def field_simps)
  have x2: "2 \<le> x \<longleftrightarrow> 2 / R \<le> of_int d / of_int Second"
    using assms(2) S by (simp add: x_def field_simps)
  have d: "0 \<le> d"
  proof (rule ccontr)
    assume "\<not> 0 \<le> d"
    then have "of_int d < (0::rat)" by simp
    with assms(2) have "R * of_int d < 0"
      by (rule mult_pos_neg)
    then have "x < 0"
      unfolding x_def using S by (rule divide_neg_pos)
    with x1 show False by simp
  qed
  define lm0 where "lm0 = NewLimiter R B"
  define lm1 where "lm1 = lm0\<lparr>tokens := 0, last := Some t\<rparr>"
  have B: "of_nat (nat B) = (of_int B :: rat)"
    using assms(1) by simp
  have burst: "Allow_seq lm0 (replicate (nat B) t) = (replicate (nat B) True, lm1)"
    unfolding lm1_def
    using assms(1) by (subst Allow_seq_burst [where t = t]) (simp_all add: lm0_def NewLimiter_def)
  have deny: "Allow lm1 t = (False, lm1)"
    using assms(1) by (simp add: Allow_def advance_def lm1_def lm0_def NewLimiter_def min_def)
  define y where "y = min (of_int B) x"
  have y1: "1 \<le> y"
    using x1 assms(1) by (simp add: y_def)
  have adv2: "advance lm1 (t + d) = y"
    using d by (simp add: advance_def lm1_def lm0_def NewLimiter_def y_def x_def)
  define lm2 where "lm2 = lm1\<lparr>tokens := y - 1, last := Some (t + d)\<rparr>"
  have admit: "Allow lm1 (t + d) = (True, lm2)"
    using y1 by (simp add: Allow_def adv2 lm2_def)
  have adv3: "advance lm2 (t + d) = y - 1"
    using y1 by (simp add: advance_def lm2_def lm1_def lm0_def NewLimiter_def y_def min_def)
  have third: "fst (Allow lm2 (t + d)) = (2 \<le> B \<and> 2 \<le> x)"
  proof -
    have "fst (Allow lm2 (t + d)) = (2 \<le> y)"
      by (simp add: Allow_def adv3 Let_def)
    also have "\<dots> = (2 \<le> (of_int B :: rat) \<and> 2 \<le> x)"
      by (simp add: y_def)
    also have "\<dots> = (2 \<le> B \<and> 2 \<le> x)"
      by simp
    finally show ?thesis .
  qed
  have "fst (Allow_seq lm0 (replicate (nat B) t @ [t, t + d, t + d])) =
          replicate (nat B) True @ [False, True, 2 \<le> B \<and> 2 \<le> x]"
    using third by (auto simp add: Allow_seq_append burst deny admit split: prod.splits)
  then show ?thesis
    by (simp add: lm0_def x2)
qed

theorem Allow_burst_then_refill_witness:
  "(0::int) < 2 \<and> (0::rat) < 1 \<and> 1 / (1::rat) \<le> of_int 1500000000 / of_int Second
   \<and> fst (Allow_seq (NewLimiter 1 2) (replicate (nat 2) 0 @ [0, 0 + 1500000000, 0 + 1500000000])) =
        [True, True, False, True, False]"
proof -
  have w: "1 / (1::rat) \<le> of_int 1500000000 / of_int Second"
    by (simp add: Second_def)
  show ?thesis
    using Allow_burst_then_refill [of 2 1 1500000000 0] w
    by (simp add: numeral_2_eq_2 Second_def)
qed


subsection \<open>Executions: one token, and isolation of hosts\<close>

lemma host_of_split:
  assumes "host_of r = ip"
  obtains port err where "SplitHostPort (RemoteAddr r) = (ip, port, err)"
  using assms by (cases "SplitHostPort (RemoteAddr r)") (auto simp add: host_of_def)

lemma run_Serve_other:
  assumes "host_of r \<noteq> ip"
  shows "snd (RateLimitHandler cfg next tSeen tAllow cs r w) ip = cs ip"
proof -
  obtain port err where "SplitHostPort (RemoteAddr r) = (host_of r, port, err)"
    by (cases "SplitHostPort (RemoteAddr r)") (auto simp add: host_of_def)
  then show ?thesis
    using assms by (simp add: RateLimitHandler_other_hosts)
qed

lemma fst_run_Serve:
  "fst (run cfg next (Serve r w tSeen tAllow # evs) cs) =
     (host_of r, fst (RateLimitHandler cfg next tSeen tAllow cs r w))
       # fst (run cfg next evs (snd (RateLimitHandler cfg next tSeen tAllow cs r w)))"
  by (simp add: case_prod_beta)

lemma snd_run_Serve:
  "snd (run cfg next (Serve r w tSeen tAllow # evs) cs) =
     snd (run cfg next evs (snd (RateLimitHandler cfg next tSeen tAllow cs r w)))"
  by (simp add: case_prod_beta)

lemma run_isolated:
  assumes "cs ip = cs' ip"
  shows "outcomes_of ip (fst (run cfg next evs cs)) =
           outcomes_of ip (fst (run cfg next (filter (concerns ip) evs) cs'))
         \<and> snd (run cfg next evs cs) ip = snd (run cfg next (filter (concerns ip) evs) cs') ip"
  using assms
proof (induction evs arbitrary: cs cs')
  case Nil
  then show ?case by simp
next
  case (Cons e evs)
  show ?case
  proof (cases e)
    case (Serve r w tSeen tAllow)
    show ?thesis
    proof (cases "host_of r = ip")
      case True
      then obtain port err where sp: "SplitHostPort (RemoteAddr r) = (ip, port, err)"
        by (rule host_of_split)
      have own: "fst (RateLimitHandler cfg next tSeen tAllow cs r w) =
                   fst (RateLimitHandler cfg next tSeen tAllow cs' r w)
                 \<and> snd (RateLimitHandler cfg next tSeen tAllow cs r w) ip =
                     snd (RateLimitHandler cfg next tSeen tAllow cs' r w) ip"
        using sp Cons.prems by (rule RateLimitHandler_own_entry)
      from own have st: "snd (RateLimitHandler cfg next tSeen tAllow cs r w) ip =
                           snd (RateLimitHandler cfg next tSeen tAllow cs' r w) ip"
        by simp
      from own have out: "fst (RateLimitHandler cfg next tSeen tAllow cs r w) =
                            fst (RateLimitHandler cfg next tSeen tAllow cs' r w)"
        by simp
      show ?thesis
        using Cons.IH [of "snd (RateLimitHandler cfg next tSeen tAllow cs r w)"
                          "snd (RateLimitHandler cfg next tSeen tAllow cs' r w)"] st out True
        by (simp add: Serve outcomes_of_def fst_run_Serve snd_run_Serve del: run.simps)
    next
      case False
      have st: "snd (RateLimitHandler cfg next tSeen tAllow cs r w) ip = cs' ip"
        using False Cons.prems by (simp add: run_Serve_other)
      show ?thesis
        using Cons.IH [of "snd (RateLimitHandler cfg next tSeen tAllow cs r w)" cs'] st False
        by (simp add: Serve outcomes_of_def fst_run_Serve snd_run_Serve del: run.simps)
    qed
  next
    case (Sweep now ips)
    have st: "reaper_range now ips cs ip = reaper_range now ips cs' ip"
      using Cons.prems by (simp add: reaper_range_lookup)
    show ?thesis
      using Cons.IH [of "reaper_range now ips cs" "reaper_range now ips cs'"] st
      by (simp add: Sweep)
  qed
qed


lemma parsed_split:
  assumes "host_of r = ip" and "parses r"
  obtains port where "SplitHostPort (RemoteAddr r) = (ip, port, None)"
  using assms by (cases "SplitHostPort (RemoteAddr r)") (auto simp add: host_of_def parses_def)

lemma RateLimitHandler_spent:
  assumes "SplitHostPort (RemoteAddr r) = (ip, port, None)" and "spent cs ip"
  shows "fst (RateLimitHandler cfg next tSeen tAllow cs r w) = Returned (RateLimitExceededResponse w r)
         \<and> spent (snd (RateLimitHandler cfg next tSeen tAllow cs r w)) ip"
proof -
  from assms(2) obtain c where c: "cs ip = Some c" "tokens (limiter c) = 0"
      "lim_limit (limiter c) = 0" "lim_burst (limiter c) = 1"
    by (auto simp add: spent_def split: option.splits)
  have f: "fetch_or_create cfg tSeen cs ip = c\<lparr>lastSeen := tSeen\<rparr>"
    using c(1) by (simp add: fetch_or_create_def)
  have a: "Allow (limiter c) tAllow = (False, (limiter c)\<lparr>tokens := 0, last := Some tAllow\<rparr>)"
    using c(2-4) by (simp add: Allow_def advance_def)
  show ?thesis
    using c(3,4) by (simp add: RateLimitHandler_split [OF assms(1)] Let_def f a spent_def)
qed

lemma RateLimitHandler_first:
  assumes "SplitHostPort (RemoteAddr r) = (ip, port, None)" and "cs ip = None"
    and "rate cfg = 0" and "burst cfg = 1"
  shows "fst (RateLimitHandler cfg next tSeen tAllow cs r w) = next r w
         \<and> spent (snd (RateLimitHandler cfg next tSeen tAllow cs r w)) ip"
proof -
  define lm where "lm = NewLimiter 0 1"
  have f: "fetch_or_create cfg tSeen cs ip = \<lparr> limiter = lm, lastSeen = tSeen \<rparr>"
    using assms(2-4) by (simp add: fetch_or_create_def lm_def)
  have a: "Allow lm tAllow = (True, lm\<lparr>tokens := 0, last := Some tAllow\<rparr>)"
    by (simp add: Allow_def advance_def NewLimiter_def lm_def)
  have l: "lim_limit lm = 0" "lim_burst lm = 1"
    by (simp_all add: NewLimiter_def lm_def)
  show ?thesis
    by (simp add: RateLimitHandler_split [OF assms(1)] Let_def f a l spent_def)
qed

lemma run_spent:
  assumes "spent cs ip" and "\<forall>p \<in> set (requests_of ip evs). parses (fst p)"
    and "\<not> evicts cfg next ip evs cs"
  shows "outcomes_of ip (fst (run cfg next evs cs)) = map denied (requests_of ip evs)"
  using assms
proof (induction evs arbitrary: cs)
  case Nil
  show ?case by (simp add: outcomes_of_def)
next
  case (Cons e evs)
  show ?case
  proof (cases e)
    case (Serve r w tSeen tAllow)
    let ?cs = "snd (RateLimitHandler cfg next tSeen tAllow cs r w)"
    have ev: "\<not> evicts cfg next ip evs ?cs"
      using Cons.prems(3) by (simp add: Serve)
    show ?thesis
    proof (cases "host_of r = ip")
      case True
      have "parses r"
        using Cons.prems(2) True by (simp add: Serve)
      with True obtain port where sp: "SplitHostPort (RemoteAddr r) = (ip, port, None)"
        by (rule parsed_split)
      note step = RateLimitHandler_spent [OF sp Cons.prems(1), of cfg "next" tSeen tAllow w]
      have wf: "\<forall>p \<in> set (requests_of ip evs). parses (fst p)"
        using Cons.prems(2) True by (simp add: Serve)
      have "outcomes_of ip (fst (run cfg next evs ?cs)) = map denied (requests_of ip evs)"
        using step wf ev by (intro Cons.IH) simp_all
      then show ?thesis
        using step True
        by (simp add: Serve outcomes_of_def fst_run_Serve denied_def del: run.simps)
    next
      case False
      have "?cs ip = cs ip"
        using False by (rule run_Serve_other)
      then have sp: "spent ?cs ip"
        using Cons.prems(1) by (simp add: spent_def)
      have wf: "\<forall>p \<in> set (requests_of ip evs). parses (fst p)"
        using Cons.prems(2) False by (simp add: Serve)
      have "outcomes_of ip (fst (run cfg next evs ?cs)) = map denied (requests_of ip evs)"
        using sp wf ev by (rule Cons.IH)
      then show ?thesis
        using False by (simp add: Serve outcomes_of_def fst_run_Serve del: run.simps)
    qed
  next
    case (Sweep now ips)
    have some: "cs ip \<noteq> None"
      using Cons.prems(1) by (auto simp add: spent_def split: option.splits)
    have kept: "reaper_range now ips cs ip \<noteq> None" and ev: "\<not> evicts cfg next ip evs (reaper_range now ips cs)"
      using Cons.prems(3) some by (simp_all add: Sweep)
    have "reaper_range now ips cs ip = cs ip"
      using kept by (auto simp add: reaper_range_lookup split: if_splits option.splits)
    then have sp: "spent (reaper_range now ips cs) ip"
      using Cons.prems(1) by (simp add: spent_def)
    have wf: "\<forall>p \<in> set (requests_of ip evs). parses (fst p)"
      using Cons.prems(2) by (simp add: Sweep)
    have "outcomes_of ip (fst (run cfg next evs (reaper_range now ips cs))) =
            map denied (requests_of ip evs)"
      using sp wf ev by (rule Cons.IH)
    then show ?thesis
      by (simp add: Sweep)
  qed
qed


lemma run_fresh:
  assumes "rate cfg = 0" and "burst cfg = 1" and "cs ip = None"
    and "\<forall>p \<in> set (requests_of ip evs). parses (fst p)"
    and "\<not> evicts cfg next ip evs cs"
  shows "outcomes_of ip (fst (run cfg next evs cs)) =
           (case requests_of ip evs of
              [] \<Rightarrow> []
            | p # ps \<Rightarrow> next (fst p) (snd p) # map denied ps)"
  using assms(3-5)
proof (induction evs arbitrary: cs)
  case Nil
  show ?case by (simp add: outcomes_of_def)
next
  case (Cons e evs)
  show ?case
  proof (cases e)
    case (Serve r w tSeen tAllow)
    let ?cs = "snd (RateLimitHandler cfg next tSeen tAllow cs r w)"
    have ev: "\<not> evicts cfg next ip evs ?cs"
      using Cons.prems(3) by (simp add: Serve)
    show ?thesis
    proof (cases "host_of r = ip")
      case True
      have "parses r"
        using Cons.prems(2) True by (simp add: Serve)
      with True obtain port where sp: "SplitHostPort (RemoteAddr r) = (ip, port, None)"
        by (rule parsed_split)
      have step: "fst (RateLimitHandler cfg next tSeen tAllow cs r w) = next r w
                  \<and> spent (snd (RateLimitHandler cfg next tSeen tAllow cs r w)) ip"
        using sp Cons.prems(1) assms(1) assms(2) by (rule RateLimitHandler_first)
      have wf: "\<forall>p \<in> set (requests_of ip evs). parses (fst p)"
        using Cons.prems(2) True by (simp add: Serve)
      have "outcomes_of ip (fst (run cfg next evs ?cs)) = map denied (requests_of ip evs)"
        using step wf ev by (intro run_spent) simp_all
      then show ?thesis
        using step True
        by (simp add: Serve outcomes_of_def fst_run_Serve del: run.simps)
    next
      case False
      have none: "?cs ip = None"
        using False Cons.prems(1) by (simp add: run_Serve_other)
      have wf: "\<forall>p \<in> set (requests_of ip evs). parses (fst p)"
        using Cons.prems(2) False by (simp add: Serve)
      have "outcomes_of ip (fst (run cfg next evs ?cs)) =
              (case requests_of ip evs of
                 [] \<Rightarrow> []
               | p # ps \<Rightarrow> next (fst p) (snd p) # map denied ps)"
        using none wf ev by (rule Cons.IH)
      then show ?thesis
        using False by (simp add: Serve outcomes_of_def fst_run_Serve del: run.simps)
    qed
  next
    case (Sweep now ips)
    have none: "reaper_range now ips cs ip = None"
      using Cons.prems(1) by (simp add: reaper_range_lookup)
    have ev: "\<not> evicts cfg next ip evs (reaper_range now ips cs)"
      using Cons.prems(3) by (simp add: Sweep)
    have wf: "\<forall>p \<in> set (requests_of ip evs). parses (fst p)"
      using Cons.prems(2) by (simp add: Sweep)
    have "outcomes_of ip (fst (run cfg next evs (reaper_range now ips cs))) =
            (case requests_of ip evs of
               [] \<Rightarrow> []
             | p # ps \<Rightarrow> next (fst p) (snd p) # map denied ps)"
      using none wf ev by (rule Cons.IH)
    then show ?thesis
      by (simp add: Sweep)
  qed
qed

lemma SplitHostPort_req_other:
  "SplitHostPort ''10.0.0.2:9090'' = (''10.0.0.2'', ''9090'', None)"
  by (simp add: SplitHostPort_def LastIndexByte_def SplitHostPort_tail_def)

lemma host_of_examples:
  "host_of req_plain = ''10.0.0.1''" "host_of req_other = ''10.0.0.2''"
  "parses req_plain" "parses req_other"
  by (simp_all add: host_of_def parses_def req_other_def req_plain_def SplitHostPort_req_plain
        SplitHostPort_req_other)

text \<open>
  No pass of the reaper removes the entry of a host while all the sections of an execution
  fall within the staleness threshold: requests that are served within three minutes of
  one another are never separated by a removal.
\<close>

lemma RateLimitHandler_own_lastSeen:
  assumes "host_of r = ip"
  shows "\<exists>c. snd (RateLimitHandler cfg next tSeen tAllow cs r w) ip = Some c \<and> lastSeen c = tSeen"
proof -
  from assms obtain port err where sp: "SplitHostPort (RemoteAddr r) = (ip, port, err)"
    by (rule host_of_split)
  show ?thesis
    by (simp add: RateLimitHandler_split [OF sp] Let_def fetch_or_create_lastSeen)
qed

lemma window_never_evicts:
  assumes "cs ip = None \<or> (\<exists>c. cs ip = Some c \<and> lo \<le> lastSeen c)"
    and "within_window lo ip evs"
  shows "\<not> evicts cfg next ip evs cs"
  using assms
proof (induction evs arbitrary: cs)
  case Nil
  show ?case by simp
next
  case (Cons e evs)
  show ?case
  proof (cases e)
    case (Serve r w tSeen tAllow)
    let ?cs = "snd (RateLimitHandler cfg next tSeen tAllow cs r w)"
    have w: "within_window lo ip evs"
      using Cons.prems(2) by (simp add: Serve)
    have "?cs ip = None \<or> (\<exists>c. ?cs ip = Some c \<and> lo \<le> lastSeen c)"
    proof (cases "host_of r = ip")
      case True
      then have "lo \<le> tSeen"
        using Cons.prems(2) by (simp add: Serve)
      moreover obtain c where "?cs ip = Some c" "lastSeen c = tSeen"
        using RateLimitHandler_own_lastSeen [OF True] by blast
      ultimately show ?thesis by simp
    next
      case False
      then have "?cs ip = cs ip"
        by (rule run_Serve_other)
      then show ?thesis
        using Cons.prems(1) by simp
    qed
    then have "\<not> evicts cfg next ip evs ?cs"
      using w by (rule Cons.IH)
    then show ?thesis
      by (simp add: Serve)
  next
    case (Sweep now ips)
    have w: "now ip \<le> lo + staleness" "within_window lo ip evs"
      using Cons.prems(2) by (simp_all add: Sweep)
    have same: "reaper_range now ips cs ip = cs ip"
      using Cons.prems(1) w(1)
      by (auto simp add: reaper_range_lookup split: option.splits)
    then have "reaper_range now ips cs ip = None
               \<or> (\<exists>c. reaper_range now ips cs ip = Some c \<and> lo \<le> lastSeen c)"
      using Cons.prems(1) by simp
    then have "\<not> evicts cfg next ip evs (reaper_range now ips cs)"
      using w(2) by (rule Cons.IH)
    then show ?thesis
      using same by (auto simp add: Sweep)
  qed
qed


text \<open>
  C9 as stated fails in its first part: with rate 0 and burst 1, two requests of
  \<open>10.0.0.1\<close> are both admitted in the execution \<open>schedule_evicting\<close>, where the reaper
  removes the host's entry between them and the second request gets a new, full bucket.
\<close>

theorem run_two_admitted_after_sweep_counterexample:
  "rate cfg_one = 0 \<and> burst cfg_one = 1
   \<and> requests_of ''10.0.0.1'' schedule_evicting = [(req_plain, writer0), (req_plain, writer0)]
   \<and> outcomes_of ''10.0.0.1'' (fst (run cfg_one ok_handler schedule_evicting Map.empty)) =
        [ok_handler req_plain writer0, ok_handler req_plain writer0]"
  by (simp add: cfg_one_def schedule_evicting_def host_of_def outcomes_of_def req_plain_def
        SplitHostPort_req_plain RateLimitHandler_def fetch_or_create_def NewLimiter_def
        Allow_def advance_def staleness_def Minute_def Second_def)

text \<open>
  C9, amended: with rate 0 and burst 1, for a host that has no entry yet and whose requests
  have addresses that parse, in every execution in which no pass of the reaper removes the
  host's entry (whatever the order of the sections, the clock readings, and the requests
  of other hosts in between), the first of the host's requests to get the lock is handed
  to the inner handler and each of the others gets the rate-limit-exceeded response: of
  \<open>N\<close> requests one is admitted and \<open>N - 1\<close> are denied. And for every configuration and
  every execution, the outcomes of the requests counted under one key are those of the
  execution with the requests of all other keys left out, from any map that agrees on
  that key: requests of distinct hosts never influence each other's decisions.
\<close>

theorem run_one_admitted_and_isolated:
  "(rate cfg = 0 \<and> burst cfg = 1 \<and> cs ip = None
      \<and> (\<forall>p \<in> set (requests_of ip evs). parses (fst p))
      \<and> \<not> evicts cfg next ip evs cs
    \<longrightarrow> outcomes_of ip (fst (run cfg next evs cs)) =
          (case requests_of ip evs of
             [] \<Rightarrow> []
           | p # ps \<Rightarrow> next (fst p) (snd p) # map denied ps))
   \<and> (cs ip = cs' ip
    \<longrightarrow> outcomes_of ip (fst (run cfg next evs cs)) =
          outcomes_of ip (fst (run cfg next (filter (concerns ip) evs) cs')))"
  using run_fresh [of cfg cs ip evs "next"] run_isolated [of cs ip cs' cfg "next" evs]
  by blast


theorem run_one_admitted_and_isolated_witness:
  "rate cfg_one = 0 \<and> burst cfg_one = 1
   \<and> (Map.empty :: clients) ''10.0.0.1'' = None
   \<and> parses req_plain
   \<and> \<not> evicts cfg_one ok_handler ''10.0.0.1'' schedule_mixed Map.empty
   \<and> requests_of ''10.0.0.1'' schedule_mixed =
        [(req_plain, writer0), (req_plain, writer0), (req_plain, writer0)]
   \<and> outcomes_of ''10.0.0.1'' (fst (run cfg_one ok_handler schedule_mixed Map.empty)) =
        [ok_handler req_plain writer0, denied (req_plain, writer0), denied (req_plain, writer0)]
   \<and> filter (concerns ''10.0.0.1'') schedule_mixed =
        [Serve req_plain writer0 0 0,
         Sweep (\<lambda>ip. 5) [''10.0.0.2'', ''10.0.0.1''],
         Serve req_plain writer0 6 7,
         Serve req_plain writer0 8 9]
   \<and> outcomes_of ''10.0.0.1'' (fst (run cfg_one ok_handler schedule_mixed Map.empty)) =
        outcomes_of ''10.0.0.1''
          (fst (run cfg_one ok_handler (filter (concerns ''10.0.0.1'') schedule_mixed) Map.empty))"
proof -
  have c: "rate cfg_one = 0" "burst cfg_one = 1"
    by (simp_all add: cfg_one_def)
  have rq: "requests_of ''10.0.0.1'' schedule_mixed =
              [(req_plain, writer0), (req_plain, writer0), (req_plain, writer0)]"
    by (simp add: schedule_mixed_def host_of_examples)
  have wf: "\<forall>p \<in> set (requests_of ''10.0.0.1'' schedule_mixed). parses (fst p)"
    by (simp add: rq host_of_examples)
  have ev: "\<not> evicts cfg_one ok_handler ''10.0.0.1'' schedule_mixed Map.empty"
    by (simp add: schedule_mixed_def cfg_one_def req_other_def req_plain_def
          SplitHostPort_req_plain SplitHostPort_req_other RateLimitHandler_def
          fetch_or_create_def NewLimiter_def Allow_def advance_def staleness_def Minute_def
          Second_def)
  have fl: "filter (concerns ''10.0.0.1'') schedule_mixed =
        [Serve req_plain writer0 0 0,
         Sweep (\<lambda>ip. 5) [''10.0.0.2'', ''10.0.0.1''],
         Serve req_plain writer0 6 7,
         Serve req_plain writer0 8 9]"
    by (simp add: schedule_mixed_def host_of_examples)
  note inst = run_one_admitted_and_isolated
    [of cfg_one Map.empty "''10.0.0.1''" schedule_mixed ok_handler Map.empty]
  have one: "outcomes_of ''10.0.0.1'' (fst (run cfg_one ok_handler schedule_mixed Map.empty)) =
        [ok_handler req_plain writer0, denied (req_plain, writer0), denied (req_plain, writer0)]"
    using inst c wf ev by (simp add: rq)
  have iso: "outcomes_of ''10.0.0.1'' (fst (run cfg_one ok_handler schedule_mixed Map.empty)) =
        outcomes_of ''10.0.0.1''
          (fst (run cfg_one ok_handler (filter (concerns ''10.0.0.1'') schedule_mixed) Map.empty))"
    using inst by blast
  have pr: "parses req_plain"
    by (simp add: host_of_examples)
  from c pr ev rq one fl iso show ?thesis
    by blast
qed


end
